theory Spec2Isabelle
  imports Complex_Main "HOL-Library.Product_Lexorder"
begin

section \<open>The bq25570 resistor divider calculator\<close>

text \<open>
  A shallow embedding of \<^verbatim>\<open>bq25570_calc.py\<close>. Python's \<^verbatim>\<open>float\<close> is read as
  \<^typ>\<open>real\<close>: arithmetic is exact, so rounding, infinities and NaN are outside the
  model. Two behaviours at the ends of the range of a double, which the decades of the
  pool can reach, are modelled as the code has them: a negative power of ten below the
  least positive double is \<open>0\<close>, and the product of a float with an integer power of ten
  above the largest double raises \<^verbatim>\<open>OverflowError\<close>. Python's \<^verbatim>\<open>int\<close> is
  \<^typ>\<open>int\<close>.
\<close>

subsection \<open>Faults and loops\<close>

text \<open>
  The faults the core can raise are values of the type \<open>error\<close>: the division by a zero
  bottom resistor and the conversion of too large an integer to a float. A function that
  can raise returns \<open>error + 'a\<close>, with \<open>Inl\<close> the fault.
\<close>

datatype error = ZeroDivisionError | OverflowError

text \<open>
  A \<^verbatim>\<open>for\<close> loop whose body may raise: the state is threaded through the elements in
  order and the first fault ends the loop.
\<close>

fun for_each :: "('a \<Rightarrow> 's \<Rightarrow> error + 's) \<Rightarrow> 'a list \<Rightarrow> 's \<Rightarrow> error + 's" where
  "for_each body [] s = Inr s"
| "for_each body (x # xs) s =
     (case body x s of Inl e \<Rightarrow> Inl e | Inr s' \<Rightarrow> for_each body xs s')"

subsection \<open>Constants and tables\<close>

definition VBIAS_TYP :: real where "VBIAS_TYP = 1.21"
definition VBIAS_MIN :: real where "VBIAS_MIN = 1.205"
definition VBIAS_MAX :: real where "VBIAS_MAX = 1.217"

definition DEFAULT_RSUM_MAX :: real where "DEFAULT_RSUM_MAX = 13000000"

definition E24_BASE :: "real list" where
  "E24_BASE =
    [1.0, 1.1, 1.2, 1.3, 1.5, 1.6, 1.8, 2.0, 2.2, 2.4, 2.7, 3.0,
     3.3, 3.6, 3.9, 4.3, 4.7, 5.1, 5.6, 6.2, 6.8, 7.5, 8.2, 9.1]"

definition E96_BASE :: "real list" where
  "E96_BASE =
    [1.00, 1.02, 1.05, 1.07, 1.10, 1.13, 1.15, 1.18, 1.21, 1.24, 1.27, 1.30, 1.33, 1.37, 1.40, 1.43,
     1.47, 1.50, 1.54, 1.58, 1.62, 1.65, 1.69, 1.74, 1.78, 1.82, 1.87, 1.91, 1.96, 2.00, 2.05, 2.10,
     2.15, 2.21, 2.26, 2.32, 2.37, 2.43, 2.49, 2.55, 2.61, 2.67, 2.74, 2.80, 2.87, 2.94, 3.01, 3.09,
     3.16, 3.24, 3.32, 3.40, 3.48, 3.57, 3.65, 3.74, 3.83, 3.92, 4.02, 4.12, 4.22, 4.32, 4.42, 4.53,
     4.64, 4.75, 4.87, 4.99, 5.11, 5.23, 5.36, 5.49, 5.62, 5.76, 5.90, 6.04, 6.19, 6.34, 6.49, 6.65,
     6.81, 6.98, 7.15, 7.32, 7.50, 7.68, 7.87, 8.06, 8.25, 8.45, 8.66, 8.87, 9.09, 9.31, 9.53, 9.76]"

subsection \<open>Candidate records\<close>

text \<open>
  The two dataclasses share the field names \<^verbatim>\<open>error\<close>, \<^verbatim>\<open>r1\<close>, \<^verbatim>\<open>r2\<close> and
  \<^verbatim>\<open>rsum\<close>, which are also the names of local variables of the searches; the fields
  of \<^verbatim>\<open>TwoResCandidate\<close> carry the prefix \<open>two_\<close> and those of
  \<^verbatim>\<open>ThreeResCandidate\<close> the prefix \<open>three_\<close>.
\<close>

record TwoResCandidate =
  two_error :: real
  two_v_nom :: real
  two_r1 :: real
  two_r2 :: real
  two_rsum :: real

record ThreeResCandidate =
  three_error :: real
  three_v_prog :: real
  three_v_hyst :: real
  three_r1 :: real
  three_r2 :: real
  three_r3 :: real
  three_rsum :: real

subsection \<open>ESeries\<close>

record ESeries =
  name :: string
  decade_min :: int
  decade_max :: int

text \<open>\<^verbatim>\<open>str.upper\<close> on the ASCII letters; every other byte is kept.\<close>

definition upper_char :: "char \<Rightarrow> char" where
  "upper_char c =
     (let n = (of_char c :: nat) in if 97 \<le> n \<and> n \<le> 122 then char_of (n - 32) else c)"

definition upper :: "string \<Rightarrow> string" where
  "upper s = map upper_char s"

definition ESeries_init :: "string \<Rightarrow> int \<Rightarrow> int \<Rightarrow> ESeries" where
  "ESeries_init nm dmin dmax = \<lparr>name = upper nm, decade_min = dmin, decade_max = dmax\<rparr>"

definition ESeries_base :: "ESeries \<Rightarrow> real list" where
  "ESeries_base self = (if name self = ''E24'' then E24_BASE else E96_BASE)"

text \<open>
  \<^verbatim>\<open>factor = 10 ** d\<close>: an exact integer for \<open>d \<ge> 0\<close>, a float for \<open>d < 0\<close>. The float
  is \<open>0.0\<close> once \<open>10 powi d\<close> is below half the least positive double, that is for
  \<open>d \<le> -324\<close>.
\<close>

definition power10 :: "int \<Rightarrow> real" where
  "power10 d = (if d \<le> - 324 then 0 else 10 powi d)"

text \<open>
  \<^verbatim>\<open>b * factor\<close>: an integer factor is converted to a float first, and Python raises
  \<^verbatim>\<open>OverflowError\<close> when it exceeds the largest double, that is for \<open>d \<ge> 309\<close>.
\<close>

definition times_power10 :: "real \<Rightarrow> int \<Rightarrow> error + real" where
  "times_power10 b d = (if 309 \<le> d then Inl OverflowError else Inr (b * power10 d))"

text \<open>
  \<^verbatim>\<open>vals.extend(b * factor for b in base)\<close>, for one decade: the products are appended
  in the order of the table.
\<close>

definition ESeries_extend :: "real list \<Rightarrow> int \<Rightarrow> real list \<Rightarrow> error + real list" where
  "ESeries_extend base d vals =
     for_each (\<lambda>b vs. case times_power10 b d of Inl e \<Rightarrow> Inl e | Inr x \<Rightarrow> Inr (vs @ [x]))
       base vals"

text \<open>
  \<^verbatim>\<open>values\<close>: the loop over \<^verbatim>\<open>range(decade_min, decade_max + 1)\<close>, then
  \<^verbatim>\<open>sorted\<close>, a stable sort as \<^const>\<open>sort\<close> is. For \<open>-323 \<le> d \<le> 308\<close> the products
  are read as exact reals; at the ends of that range (below \<open>-307\<close>, where products are
  subnormal, and at \<open>308\<close>, where the larger ones are infinite) a double is further from
  the real than one rounding, and the theorems about the values keep to
  \<open>-307 \<le> d \<le> 307\<close>.
\<close>

definition ESeries_values :: "ESeries \<Rightarrow> error + real list" where
  "ESeries_values self =
     (let base = ESeries_base self in
      case for_each (ESeries_extend base) [decade_min self .. decade_max self] [] of
        Inl e \<Rightarrow> Inl e
      | Inr vals \<Rightarrow> Inr (sort vals))"

subsection \<open>Calculator: the transfer functions\<close>

text \<open>
  Each formula divides by the bottom resistor \<open>r1\<close>; Python raises
  \<^verbatim>\<open>ZeroDivisionError\<close> when it is zero. A caller that omits \<^verbatim>\<open>vbias\<close> gets
  \<^verbatim>\<open>VBIAS_TYP\<close>, which the model passes explicitly.
\<close>

definition vout :: "real \<Rightarrow> real \<Rightarrow> real \<Rightarrow> error + real" where
  "vout r1 r2 vbias =
     (if r1 = 0 then Inl ZeroDivisionError else Inr (vbias * (1 + r2 / r1)))"

definition vbat_ov :: "real \<Rightarrow> real \<Rightarrow> real \<Rightarrow> error + real" where
  "vbat_ov r1 r2 vbias =
     (if r1 = 0 then Inl ZeroDivisionError else Inr (1.5 * vbias * (1 + r2 / r1)))"

definition vbat_ok_prog :: "real \<Rightarrow> real \<Rightarrow> real \<Rightarrow> error + real" where
  "vbat_ok_prog r1 r2 vbias =
     (if r1 = 0 then Inl ZeroDivisionError else Inr (vbias * (1 + r2 / r1)))"

definition vbat_ok_hyst :: "real \<Rightarrow> real \<Rightarrow> real \<Rightarrow> real \<Rightarrow> error + real" where
  "vbat_ok_hyst r1 r2 r3 vbias =
     (if r1 = 0 then Inl ZeroDivisionError else Inr (vbias * (1 + (r2 + r3) / r1)))"

subsection \<open>WorstCase: the tolerance corners\<close>

type_synonym vfunc = "real \<Rightarrow> real \<Rightarrow> real \<Rightarrow> error + real"

definition two_res_bounds ::
  "vfunc \<Rightarrow> real \<Rightarrow> real \<Rightarrow> real \<Rightarrow> real \<times> real \<Rightarrow> error + (real \<times> real)" where
  "two_res_bounds vfunc r1 r2 tol vbounds =
     (let r1_min = r1 * (1 - tol); r1_max = r1 * (1 + tol);
          r2_min = r2 * (1 - tol); r2_max = r2 * (1 + tol)
      in case vfunc r1_max r2_min (fst vbounds) of
           Inl e \<Rightarrow> Inl e
         | Inr v_min \<Rightarrow>
             (case vfunc r1_min r2_max (snd vbounds) of
                Inl e \<Rightarrow> Inl e
              | Inr v_max \<Rightarrow> Inr (v_min, v_max)))"

definition ok_bounds ::
  "real \<Rightarrow> real \<Rightarrow> real \<Rightarrow> real \<Rightarrow> real \<times> real
     \<Rightarrow> error + ((real \<times> real) \<times> (real \<times> real))" where
  "ok_bounds r1 r2 r3 tol vbounds =
     (case vbat_ok_prog (r1 * (1 + tol)) (r2 * (1 - tol)) (fst vbounds) of
        Inl e \<Rightarrow> Inl e
      | Inr vp_min \<Rightarrow>
     (case vbat_ok_prog (r1 * (1 - tol)) (r2 * (1 + tol)) (snd vbounds) of
        Inl e \<Rightarrow> Inl e
      | Inr vp_max \<Rightarrow>
     (case vbat_ok_hyst (r1 * (1 + tol)) (r2 * (1 - tol)) (r3 * (1 - tol)) (fst vbounds) of
        Inl e \<Rightarrow> Inl e
      | Inr vh_min \<Rightarrow>
     (case vbat_ok_hyst (r1 * (1 - tol)) (r2 * (1 + tol)) (r3 * (1 + tol)) (snd vbounds) of
        Inl e \<Rightarrow> Inl e
      | Inr vh_max \<Rightarrow> Inr ((vp_min, vp_max), (vh_min, vh_max))))))"

subsection \<open>DatasheetLimits\<close>

record DatasheetLimits =
  vbat_uv :: real
  vbat_ov_target :: "real option"

definition allow_vout_target :: "DatasheetLimits \<Rightarrow> real \<Rightarrow> bool" where
  "allow_vout_target self v = (2.0 \<le> v \<and> v \<le> 5.5)"

definition allow_vbat_ov_target :: "DatasheetLimits \<Rightarrow> real \<Rightarrow> bool" where
  "allow_vbat_ov_target self v = (2.0 \<le> v \<and> v \<le> 5.5)"

definition ok_relationships :: "DatasheetLimits \<Rightarrow> real \<Rightarrow> real \<Rightarrow> bool" where
  "ok_relationships self v_prog v_hyst =
     (if v_prog < vbat_uv self then False
      else if v_hyst < v_prog then False
      else if (case vbat_ov_target self of None \<Rightarrow> False | Some ov \<Rightarrow> v_hyst > ov) then False
      else True)"

subsection \<open>Optimizer\<close>

record Optimizer =
  series :: ESeries
  rsum_max :: real
  limit :: int
  limits :: DatasheetLimits
  pool :: "real list"

text \<open>The constructor calls \<^verbatim>\<open>values\<close>, so it raises when \<^verbatim>\<open>values\<close> does.\<close>

definition Optimizer_init ::
  "ESeries \<Rightarrow> real \<Rightarrow> int \<Rightarrow> DatasheetLimits \<Rightarrow> error + Optimizer" where
  "Optimizer_init ser rmax k lims =
     (case ESeries_values ser of
        Inl e \<Rightarrow> Inl e
      | Inr vals \<Rightarrow>
          Inr \<lparr>series = ser, rsum_max = rmax, limit = k, limits = lims, pool = vals\<rparr>)"

text \<open>
  The slice \<^verbatim>\<open>cands[:n]\<close>: a negative \<open>n\<close> counts from the end of the list.
\<close>

definition slice_to :: "int \<Rightarrow> 'a list \<Rightarrow> 'a list" where
  "slice_to n xs =
     (if 0 \<le> n then take (nat n) xs else take (length xs - nat (- n)) xs)"

text \<open>The body of the inner loop of \<^verbatim>\<open>search_two\<close>, for one pair.\<close>

definition search_two_body ::
  "Optimizer \<Rightarrow> real \<Rightarrow> vfunc \<Rightarrow> real option \<Rightarrow> real \<Rightarrow> real \<Rightarrow> real
     \<Rightarrow> TwoResCandidate list \<Rightarrow> error + TwoResCandidate list" where
  "search_two_body self target vfunc never_exceed tol_for_ne r1 r2 cands =
     (let s = r1 + r2 in
      if s > rsum_max self then Inr cands
      else
        case vfunc r1 r2 VBIAS_TYP of
          Inl e \<Rightarrow> Inl e
        | Inr v \<Rightarrow>
            let cand = \<lparr>two_error = \<bar>v - target\<bar>, two_v_nom = v, two_r1 = r1, two_r2 = r2,
                        two_rsum = s\<rparr>
            in (case never_exceed of
                  None \<Rightarrow> Inr (cands @ [cand])
                | Some ne \<Rightarrow>
                    (case two_res_bounds vfunc r1 r2 tol_for_ne (VBIAS_MIN, VBIAS_MAX) of
                       Inl e \<Rightarrow> Inl e
                     | Inr (vmin, vmax) \<Rightarrow>
                         if vmax > ne + 1 / 10 ^ 12 then Inr cands
                         else Inr (cands @ [cand]))))"

text \<open>The two nested loops of \<^verbatim>\<open>search_two\<close>: the candidates before the sort.\<close>

definition search_two_cands ::
  "Optimizer \<Rightarrow> real \<Rightarrow> vfunc \<Rightarrow> real option \<Rightarrow> real \<Rightarrow> error + TwoResCandidate list" where
  "search_two_cands self target vfunc never_exceed tol_for_ne =
     for_each (\<lambda>r1. for_each (search_two_body self target vfunc never_exceed tol_for_ne r1)
                      (pool self))
       (pool self) []"

definition search_two ::
  "Optimizer \<Rightarrow> real \<Rightarrow> vfunc \<Rightarrow> real option \<Rightarrow> real \<Rightarrow> (real \<Rightarrow> bool) option
     \<Rightarrow> error + TwoResCandidate list" where
  "search_two self target vfunc never_exceed tol_for_ne target_checker =
     (if (case target_checker of None \<Rightarrow> False | Some chk \<Rightarrow> \<not> chk target) then Inr []
      else
        case search_two_cands self target vfunc never_exceed tol_for_ne of
          Inl e \<Rightarrow> Inl e
        | Inr cands \<Rightarrow>
            Inr (slice_to (limit self) (sort_key (\<lambda>x. (two_error x, two_rsum x)) cands)))"

text \<open>The body of the innermost loop of \<^verbatim>\<open>search_ok\<close>, for one triple.\<close>

definition search_ok_body ::
  "Optimizer \<Rightarrow> real option \<Rightarrow> real option \<Rightarrow> real \<Rightarrow> real \<Rightarrow> real \<Rightarrow> real
     \<Rightarrow> ThreeResCandidate list \<Rightarrow> error + ThreeResCandidate list" where
  "search_ok_body self target_prog target_hyst r1 r2 vp r3 cands =
     (let s = r1 + r2 + r3 in
      if s > rsum_max self then Inr cands
      else
        case vbat_ok_hyst r1 r2 r3 VBIAS_TYP of
          Inl e \<Rightarrow> Inl e
        | Inr vh \<Rightarrow>
            if \<not> ok_relationships (limits self) vp vh then Inr cands
            else
              (case (target_prog, target_hyst) of
                 (Some tp, Some th) \<Rightarrow>
                   Inr (cands @ [\<lparr>three_error = \<bar>vp - tp\<bar> + \<bar>vh - th\<bar>, three_v_prog = vp,
                     three_v_hyst = vh, three_r1 = r1, three_r2 = r2, three_r3 = r3,
                     three_rsum = s\<rparr>])
               | (Some tp, None) \<Rightarrow>
                   Inr (cands @ [\<lparr>three_error = \<bar>vp - tp\<bar>, three_v_prog = vp,
                     three_v_hyst = vh, three_r1 = r1, three_r2 = r2, three_r3 = r3,
                     three_rsum = s\<rparr>])
               | (None, Some th) \<Rightarrow>
                   Inr (cands @ [\<lparr>three_error = \<bar>vh - th\<bar>, three_v_prog = vp,
                     three_v_hyst = vh, three_r1 = r1, three_r2 = r2, three_r3 = r3,
                     three_rsum = s\<rparr>])
               | (None, None) \<Rightarrow> Inr cands))"

text \<open>
  The three nested loops of \<^verbatim>\<open>search_ok\<close>; the programmed threshold is computed in
  the middle loop, before the innermost loop starts.
\<close>

definition search_ok_mid ::
  "Optimizer \<Rightarrow> real option \<Rightarrow> real option \<Rightarrow> real \<Rightarrow> real
     \<Rightarrow> ThreeResCandidate list \<Rightarrow> error + ThreeResCandidate list" where
  "search_ok_mid self target_prog target_hyst r1 r2 cands =
     (case vbat_ok_prog r1 r2 VBIAS_TYP of
        Inl e \<Rightarrow> Inl e
      | Inr vp \<Rightarrow>
          for_each (search_ok_body self target_prog target_hyst r1 r2 vp) (pool self) cands)"

definition search_ok_cands ::
  "Optimizer \<Rightarrow> real option \<Rightarrow> real option \<Rightarrow> error + ThreeResCandidate list" where
  "search_ok_cands self target_prog target_hyst =
     for_each (\<lambda>r1. for_each (search_ok_mid self target_prog target_hyst r1) (pool self))
       (pool self) []"

definition search_ok ::
  "Optimizer \<Rightarrow> real option \<Rightarrow> real option \<Rightarrow> error + ThreeResCandidate list" where
  "search_ok self target_prog target_hyst =
     (case search_ok_cands self target_prog target_hyst of
        Inl e \<Rightarrow> Inl e
      | Inr cands \<Rightarrow>
          Inr (slice_to (limit self) (sort_key (\<lambda>x. (three_error x, three_rsum x)) cands)))"

section \<open>The value tables and the pool\<close>

lemma E24_BASE_successively: "successively (<) E24_BASE"
  by (simp add: E24_BASE_def)

lemma E96_BASE_successively: "successively (<) E96_BASE"
  by (simp add: E96_BASE_def)

lemma E24_BASE_range: "\<forall>b\<in>set E24_BASE. 1 \<le> b \<and> b < 10"
  by (simp add: E24_BASE_def)

lemma E96_BASE_range: "\<forall>b\<in>set E96_BASE. 1 \<le> b \<and> b < 10"
  by (simp add: E96_BASE_def)

lemma ESeries_base_cases: "ESeries_base self = E24_BASE \<or> ESeries_base self = E96_BASE"
  by (simp add: ESeries_base_def)

lemma ESeries_base_strict: "sorted_wrt (<) (ESeries_base self)"
proof -
  have tr: "transp ((<) :: real \<Rightarrow> real \<Rightarrow> bool)"
    by (rule transpI) simp
  show ?thesis
    using ESeries_base_cases [of self] E24_BASE_successively E96_BASE_successively
    by (auto simp: successively_conv_sorted_wrt [OF tr])
qed

lemma ESeries_base_distinct: "distinct (ESeries_base self)"
  using ESeries_base_strict [of self] by (simp add: strict_sorted_iff)

lemma ESeries_base_range: "b \<in> set (ESeries_base self) \<Longrightarrow> 1 \<le> b \<and> b < 10"
  using ESeries_base_cases [of self] E24_BASE_range E96_BASE_range by auto

lemma decade_less:
  fixes b b' :: real
  assumes "b < 10" "1 \<le> b'" "d < d'"
  shows "b * 10 powi d < b' * 10 powi d'"
proof -
  have pos: "0 < (10::real) powi d" by simp
  have "b * 10 powi d < 10 * 10 powi d"
    using assms(1) pos by simp
  also have "\<dots> = 10 powi (d + 1)"
    by (simp add: power_int_add_1')
  also have "\<dots> \<le> 10 powi d'"
    using assms(3) by (intro power_int_increasing) auto
  also have "\<dots> \<le> b' * 10 powi d'"
    using mult_right_mono [of 1 b' "10 powi d'"] assms(2) by simp
  finally show ?thesis .
qed

lemma decade_unique:
  fixes b b' :: real
  assumes "1 \<le> b" "b < 10" "1 \<le> b'" "b' < 10" "b * 10 powi d = b' * 10 powi d'"
  shows "d = d'"
proof (rule ccontr)
  assume "d \<noteq> d'"
  then consider "d < d'" | "d' < d" by linarith
  then show False
  proof cases
    case 1
    from decade_less [OF assms(2) assms(3) 1] assms(5) show False by simp
  next
    case 2
    from decade_less [OF assms(4) assms(1) 2] assms(5) show False by simp
  qed
qed

lemma distinct_decades:
  fixes base :: "real list"
  assumes "distinct base" "\<forall>b\<in>set base. 1 \<le> b \<and> b < 10" "distinct ds"
  shows "distinct (concat (map (\<lambda>d. map (\<lambda>b. b * 10 powi d) base) ds))"
  using assms(3)
proof (induction ds)
  case Nil
  then show ?case by simp
next
  case (Cons d ds)
  have inj: "inj_on (\<lambda>b::real. b * 10 powi d) (set base)"
    by (rule inj_onI) simp
  have one: "distinct (map (\<lambda>b. b * 10 powi d) base)"
    using assms(1) inj by (simp add: distinct_map)
  have sep: "set (map (\<lambda>b. b * 10 powi d) base)
      \<inter> set (concat (map (\<lambda>d. map (\<lambda>b. b * 10 powi d) base) ds)) = {}"
  proof (rule ccontr)
    assume "\<not> ?thesis"
    then obtain b b' d' where "b \<in> set base" "b' \<in> set base" "d' \<in> set ds"
      "b * 10 powi d = b' * 10 powi d'"
      by auto
    with assms(2) have "d = d'"
      using decade_unique [of b b' d d'] by blast
    with \<open>d' \<in> set ds\<close> Cons.prems show False by simp
  qed
  from Cons one sep show ?case by simp
qed

lemma decades_strict:
  fixes base :: "real list"
  assumes "distinct base" "\<forall>b\<in>set base. 1 \<le> b \<and> b < 10" "distinct ds"
  shows "sorted_wrt (<) (sort (concat (map (\<lambda>d. map (\<lambda>b. b * 10 powi d) base) ds)))"
  using distinct_decades [OF assms] by (simp add: strict_sorted_iff)

lemma decades_set:
  fixes base :: "real list"
  shows "set (sort (concat (map (\<lambda>d. map (\<lambda>b. b * 10 powi d) base) ds))) =
     {b * 10 powi d | b d. b \<in> set base \<and> d \<in> set ds}"
  by fastforce

lemma ESeries_extend_below_309:
  "d < 309 \<Longrightarrow> ESeries_extend base d vals = Inr (vals @ map (\<lambda>b. b * power10 d) base)"
  unfolding ESeries_extend_def
  by (induction base arbitrary: vals) (simp_all add: times_power10_def)

lemma for_each_extend_below_309:
  "\<forall>d\<in>set ds. d < 309 \<Longrightarrow>
     for_each (ESeries_extend base) ds vals =
       Inr (vals @ concat (map (\<lambda>d. map (\<lambda>b. b * power10 d) base) ds))"
  by (induction ds arbitrary: vals) (simp_all add: ESeries_extend_below_309)

lemma ESeries_values_normal:
  assumes "- 323 \<le> decade_min self" "decade_max self \<le> 308"
  shows "ESeries_values self =
     Inr (sort (concat (map (\<lambda>d. map (\<lambda>b. b * 10 powi d) (ESeries_base self))
       [decade_min self .. decade_max self])))"
proof -
  have below: "\<forall>d\<in>set [decade_min self .. decade_max self]. d < 309"
    using assms(2) by auto
  have "map (\<lambda>d. map (\<lambda>b. b * power10 d) (ESeries_base self)) [decade_min self .. decade_max self] =
      map (\<lambda>d. map (\<lambda>b. b * 10 powi d) (ESeries_base self)) [decade_min self .. decade_max self]"
    using assms(1) by (intro map_cong) (auto simp: power10_def)
  with for_each_extend_below_309 [OF below, of "ESeries_base self" "[]"] show ?thesis
    by (simp add: ESeries_values_def)
qed

lemma ESeries_values_inverted:
  "decade_max self < decade_min self \<Longrightarrow> ESeries_values self = Inr []"
  by (simp add: ESeries_values_def)

lemma upper_E24: "upper ''E24'' = ''E24''"
  by code_simp

lemma upper_E96: "upper ''E96'' = ''E96''"
  by code_simp

lemma E24_decade_6:
  "ESeries_values (ESeries_init ''E24'' 6 6) =
     Inr [1000000, 1100000, 1200000, 1300000, 1500000, 1600000, 1800000, 2000000,
          2200000, 2400000, 2700000, 3000000, 3300000, 3600000, 3900000, 4300000,
          4700000, 5100000, 5600000, 6200000, 6800000, 7500000, 8200000, 9100000]"
  by (simp add: ESeries_values_def ESeries_extend_def times_power10_def power10_def
      ESeries_init_def ESeries_base_def upper_E24 E24_BASE_def upto_rec1)

lemma E24_decade_minus_324:
  "ESeries_values (ESeries_init ''E24'' (- 324) (- 324)) = Inr (replicate 24 0)"
  by (simp add: ESeries_values_def ESeries_extend_def times_power10_def power10_def
      ESeries_init_def ESeries_base_def upper_E24 E24_BASE_def upto_rec1 eval_nat_numeral)

lemma E24_decade_309:
  "ESeries_values (ESeries_init ''E24'' 309 309) = Inl OverflowError"
  by (simp add: ESeries_values_def ESeries_extend_def times_power10_def
      ESeries_init_def ESeries_base_def upper_E24 E24_BASE_def upto_rec1)

section \<open>Loops, slices and the ranking order\<close>

lemma for_each_invariant:
  assumes "for_each body xs s = Inr s'" and "P s"
    and "\<And>x t t'. x \<in> set xs \<Longrightarrow> P t \<Longrightarrow> body x t = Inr t' \<Longrightarrow> P t'"
  shows "P s'"
  using assms
proof (induction xs arbitrary: s)
  case Nil
  then show ?case by simp
next
  case (Cons x xs)
  from Cons.prems(1) obtain t where t: "body x s = Inr t" "for_each body xs t = Inr s'"
    by (auto split: sum.splits)
  have Pt: "P t" using Cons.prems(3) [of x s t] Cons.prems(2) t(1) by simp
  show ?case
  proof (rule Cons.IH [OF t(2) Pt])
    fix y u u'
    assume "y \<in> set xs" "P u" "body y u = Inr u'"
    then show "P u'" using Cons.prems(3) [of y u u'] by simp
  qed
qed

lemma for_each_rel:
  assumes "R s t"
    and "\<And>x s t. x \<in> set xs \<Longrightarrow> R s t \<Longrightarrow> rel_sum (=) R (f x s) (g x t)"
  shows "rel_sum (=) R (for_each f xs s) (for_each g xs t)"
  using assms
proof (induction xs arbitrary: s t)
  case Nil
  then show ?case by simp
next
  case (Cons x xs)
  have step: "rel_sum (=) R (f x s) (g x t)"
    using Cons.prems by simp
  show ?case
  proof (cases "f x s")
    case (Inl e)
    with step show ?thesis by (cases "g x t") simp_all
  next
    case (Inr s1)
    with step obtain t1 where t1: "g x t = Inr t1" "R s1 t1"
      by (cases "g x t") simp_all
    from Cons.IH [OF t1(2)] Cons.prems(2) Inr t1(1) show ?thesis by simp
  qed
qed

lemma for_each_unchanged:
  assumes "\<And>x. x \<in> set xs \<Longrightarrow> body x s = Inr s"
  shows "for_each body xs s = Inr s"
  using assms by (induction xs) simp_all


lemma set_slice_to: "set (slice_to n xs) \<subseteq> set xs"
  by (simp add: slice_to_def set_take_subset)





lemma search_ok_body_ok:
  assumes "search_ok_body self tp th r1 r2 vp r3 cands = Inr cands'"
    and "\<forall>c\<in>set cands. ok_relationships (limits self) (three_v_prog c) (three_v_hyst c)"
  shows "\<forall>c\<in>set cands'. ok_relationships (limits self) (three_v_prog c) (three_v_hyst c)"
  using assms
  by (auto simp: search_ok_body_def Let_def split: if_splits sum.splits option.splits)

lemma search_ok_cands_ok:
  assumes "search_ok_cands self tp th = Inr cands"
  shows "\<forall>c\<in>set cands. ok_relationships (limits self) (three_v_prog c) (three_v_hyst c)"
proof -
  let ?P = "\<lambda>cs. \<forall>c\<in>set cs. ok_relationships (limits self) (three_v_prog c) (three_v_hyst c)"
  have inner: "?P t'" if "search_ok_mid self tp th r1 r2 t = Inr t'" "?P t" for r1 r2 t t'
  proof -
    from that(1) obtain vp where
      "for_each (search_ok_body self tp th r1 r2 vp) (pool self) t = Inr t'"
      by (auto simp: search_ok_mid_def split: sum.splits)
    then show ?thesis
      by (rule for_each_invariant [where P = ?P]) (use that(2) search_ok_body_ok in blast)+
  qed
  have mid: "?P t'" if "for_each (search_ok_mid self tp th r1) (pool self) t = Inr t'" "?P t"
    for r1 t t'
    using that(1)
    by (rule for_each_invariant [where P = ?P]) (use that(2) inner in blast)+
  from assms have "for_each (\<lambda>r1. for_each (search_ok_mid self tp th r1) (pool self))
       (pool self) [] = Inr cands"
    by (simp add: search_ok_cands_def)
  then show ?thesis
    by (rule for_each_invariant [where P = ?P]) (use mid in \<open>simp, blast\<close>)
qed

lemma search_ok_ok:
  assumes "search_ok self tp th = Inr res"
  shows "\<forall>c\<in>set res. ok_relationships (limits self) (three_v_prog c) (three_v_hyst c)"
proof -
  from assms obtain cands where c: "search_ok_cands self tp th = Inr cands"
    and r: "res = slice_to (limit self) (sort_key (\<lambda>x. (three_error x, three_rsum x)) cands)"
    by (auto simp: search_ok_def split: sum.splits)
  have "set res \<subseteq> set cands"
    using set_slice_to [of "limit self" "sort_key (\<lambda>x. (three_error x, three_rsum x)) cands"]
    by (simp add: r)
  with search_ok_cands_ok [OF c] show ?thesis by blast
qed

lemma search_two_body_rel:
  assumes "ne' \<le> ne" "set cs' \<subseteq> set cs"
  shows "rel_sum (=) (\<lambda>a b. set a \<subseteq> set b)
     (search_two_body self target vfunc (Some ne') tol r1 r2 cs')
     (search_two_body self target vfunc (Some ne) tol r1 r2 cs)"
  using assms
  by (auto simp: search_two_body_def Let_def split: sum.splits prod.splits)

lemma search_two_cands_rel:
  assumes "ne' \<le> ne"
  shows "rel_sum (=) (\<lambda>a b. set a \<subseteq> set b)
     (search_two_cands self target vfunc (Some ne') tol)
     (search_two_cands self target vfunc (Some ne) tol)"
  unfolding search_two_cands_def
  by (intro for_each_rel search_two_body_rel assms) simp_all

lemma slice_to_Nil: "slice_to n [] = []"
  by (simp add: slice_to_def)

lemma search_two_empty_pool: "pool self = [] \<Longrightarrow> search_two self target vfunc ne tol chk = Inr []"
  by (simp add: search_two_def search_two_cands_def slice_to_Nil)

lemma search_ok_empty_pool: "pool self = [] \<Longrightarrow> search_ok self tp th = Inr []"
  by (simp add: search_ok_def search_ok_cands_def slice_to_Nil)

lemma search_two_rejected:
  "\<not> chk target \<Longrightarrow> search_two self target vfunc ne tol (Some chk) = Inr []"
  by (simp add: search_two_def)

lemma search_ok_no_targets:
  assumes "\<forall>r\<in>set (pool self). r \<noteq> 0"
  shows "search_ok self None None = Inr []"
proof -
  have body: "search_ok_body self None None r1 r2 vp r3 cs = Inr cs" if "r1 \<noteq> 0" for r1 r2 vp r3 cs
    using that by (simp add: search_ok_body_def vbat_ok_hyst_def Let_def)
  have mid: "search_ok_mid self None None r1 r2 cs = Inr cs" if "r1 \<noteq> 0" for r1 r2 cs
    using that by (simp add: search_ok_mid_def vbat_ok_prog_def for_each_unchanged body)
  have "search_ok_cands self None None = Inr []"
    unfolding search_ok_cands_def
    using assms by (intro for_each_unchanged) (simp add: mid)
  then show ?thesis by (simp add: search_ok_def slice_to_Nil)
qed

lemma search_ok_zero_first:
  "pool self = 0 # rest \<Longrightarrow> search_ok self target_prog target_hyst = Inl ZeroDivisionError"
  by (simp add: search_ok_def search_ok_cands_def search_ok_mid_def vbat_ok_prog_def)

section \<open>Tolerance corners\<close>

lemma corner_le:
  fixes a b c d v w :: real
  assumes "0 \<le> a" "a \<le> b" "0 < c" "c \<le> d" "0 < v" "v \<le> w"
  shows "v * (1 + a / d) \<le> w * (1 + b / c)"
proof -
  have "1 + a / d \<le> 1 + b / c" using assms by (simp add: frac_le)
  moreover have "0 \<le> 1 + a / d" using assms by simp
  ultimately show ?thesis using assms by (intro mult_mono) auto
qed

lemma tol_corners:
  fixes r t :: real
  assumes "0 < r" "0 \<le> t" "t < 1"
  shows "0 < r * (1 - t)" "r * (1 - t) \<le> r" "r \<le> r * (1 + t)" "0 < r * (1 + t)"
proof -
  show "0 < r * (1 - t)" using assms by simp
  show "r * (1 - t) \<le> r" using assms by (simp add: mult_le_cancel_left1)
  show "r \<le> r * (1 + t)" using assms by (simp add: mult_le_cancel_left1)
  show "0 < r * (1 + t)" using assms by (simp add: pos_add_strict)
qed

lemma ratio_bounds:
  fixes r1 r2 t x1 x2 v_lo v_hi v :: real
  assumes "0 < r1" "0 \<le> r2" "0 \<le> t" "t < 1" "0 < v_lo" "v_lo \<le> v" "v \<le> v_hi"
    and "r1 * (1 - t) \<le> x1" "x1 \<le> r1 * (1 + t)"
    and "r2 * (1 - t) \<le> x2" "x2 \<le> r2 * (1 + t)"
  shows "v_lo * (1 + r2 * (1 - t) / (r1 * (1 + t))) \<le> v * (1 + x2 / x1)"
    and "v * (1 + x2 / x1) \<le> v_hi * (1 + r2 * (1 + t) / (r1 * (1 - t)))"
proof -
  have p1: "0 < r1 * (1 - t)" using assms by simp
  then have x1: "0 < x1" using assms by linarith
  have p2: "0 \<le> r2 * (1 - t)" using assms by simp
  then have x2: "0 \<le> x2" using assms by linarith
  show "v_lo * (1 + r2 * (1 - t) / (r1 * (1 + t))) \<le> v * (1 + x2 / x1)"
    by (rule corner_le) (use assms p2 x1 in auto)
  show "v * (1 + x2 / x1) \<le> v_hi * (1 + r2 * (1 + t) / (r1 * (1 - t)))"
    by (rule corner_le) (use assms p1 x2 in auto)
qed

lemma bias_corners: "0 < VBIAS_MIN" "VBIAS_MIN \<le> VBIAS_TYP" "VBIAS_TYP \<le> VBIAS_MAX"
  by (simp_all add: VBIAS_MIN_def VBIAS_TYP_def VBIAS_MAX_def)

lemma vout_bounds:
  assumes "0 < r1" "0 < r2" "0 \<le> t" "t < 1" "0 < v_lo" "v_lo \<le> v" "v \<le> v_hi"
    and "r1 * (1 - t) \<le> x1" "x1 \<le> r1 * (1 + t)"
    and "r2 * (1 - t) \<le> x2" "x2 \<le> r2 * (1 + t)"
  shows "\<exists>v_min v_max u. two_res_bounds vout r1 r2 t (v_lo, v_hi) = Inr (v_min, v_max) \<and>
     vout x1 x2 v = Inr u \<and> v_min \<le> u \<and> u \<le> v_max"
proof -
  have nz: "r1 * (1 + t) \<noteq> 0" "r1 * (1 - t) \<noteq> 0" "x1 \<noteq> 0"
    using tol_corners [OF assms(1,3,4)] assms(8) by auto
  have r2: "0 \<le> r2" using assms(2) by simp
  show ?thesis
    using nz ratio_bounds [OF assms(1) r2 assms(3-11)]
    by (simp add: two_res_bounds_def vout_def Let_def)
qed

lemma vbat_ok_prog_bounds:
  assumes "0 < r1" "0 < r2" "0 \<le> t" "t < 1" "0 < v_lo" "v_lo \<le> v" "v \<le> v_hi"
    and "r1 * (1 - t) \<le> x1" "x1 \<le> r1 * (1 + t)"
    and "r2 * (1 - t) \<le> x2" "x2 \<le> r2 * (1 + t)"
  shows "\<exists>v_min v_max u. two_res_bounds vbat_ok_prog r1 r2 t (v_lo, v_hi) = Inr (v_min, v_max) \<and>
     vbat_ok_prog x1 x2 v = Inr u \<and> v_min \<le> u \<and> u \<le> v_max"
proof -
  have nz: "r1 * (1 + t) \<noteq> 0" "r1 * (1 - t) \<noteq> 0" "x1 \<noteq> 0"
    using tol_corners [OF assms(1,3,4)] assms(8) by auto
  have r2: "0 \<le> r2" using assms(2) by simp
  show ?thesis
    using nz ratio_bounds [OF assms(1) r2 assms(3-11)]
    by (simp add: two_res_bounds_def vbat_ok_prog_def Let_def)
qed

lemma vbat_ov_bounds:
  assumes "0 < r1" "0 < r2" "0 \<le> t" "t < 1" "0 < v_lo" "v_lo \<le> v" "v \<le> v_hi"
    and "r1 * (1 - t) \<le> x1" "x1 \<le> r1 * (1 + t)"
    and "r2 * (1 - t) \<le> x2" "x2 \<le> r2 * (1 + t)"
  shows "\<exists>v_min v_max u. two_res_bounds vbat_ov r1 r2 t (v_lo, v_hi) = Inr (v_min, v_max) \<and>
     vbat_ov x1 x2 v = Inr u \<and> v_min \<le> u \<and> u \<le> v_max"
proof -
  have nz: "r1 * (1 + t) \<noteq> 0" "r1 * (1 - t) \<noteq> 0" "x1 \<noteq> 0"
    using tol_corners [OF assms(1,3,4)] assms(8) by auto
  have r2: "0 \<le> r2" using assms(2) by simp
  have s: "0 < 1.5 * v_lo" "1.5 * v_lo \<le> 1.5 * v" "1.5 * v \<le> 1.5 * v_hi"
    using assms(5-7) by simp_all
  have a: "two_res_bounds vbat_ov r1 r2 t (v_lo, v_hi) =
      Inr (1.5 * v_lo * (1 + r2 * (1 - t) / (r1 * (1 + t))),
           1.5 * v_hi * (1 + r2 * (1 + t) / (r1 * (1 - t))))"
    using nz by (simp add: two_res_bounds_def vbat_ov_def Let_def)
  have b: "vbat_ov x1 x2 v = Inr (1.5 * v * (1 + x2 / x1))"
    using nz by (simp add: vbat_ov_def)
  from a b ratio_bounds [OF assms(1) r2 assms(3,4) s assms(8-11)] show ?thesis
    by blast
qed

lemma ok_bounds_sound:
  assumes "0 < r1" "0 < r2" "0 < r3" "0 \<le> t" "t < 1" "0 < v_lo" "v_lo \<le> v" "v \<le> v_hi"
    and "r1 * (1 - t) \<le> x1" "x1 \<le> r1 * (1 + t)"
    and "r2 * (1 - t) \<le> x2" "x2 \<le> r2 * (1 + t)"
    and "r3 * (1 - t) \<le> x3" "x3 \<le> r3 * (1 + t)"
  shows "\<exists>vp_min vp_max vh_min vh_max vp vh.
     ok_bounds r1 r2 r3 t (v_lo, v_hi) = Inr ((vp_min, vp_max), (vh_min, vh_max)) \<and>
     vbat_ok_prog x1 x2 v = Inr vp \<and> vbat_ok_hyst x1 x2 x3 v = Inr vh \<and>
     vp_min \<le> vp \<and> vp \<le> vp_max \<and> vh_min \<le> vh \<and> vh \<le> vh_max"
proof -
  have nz: "r1 * (1 + t) \<noteq> 0" "r1 * (1 - t) \<noteq> 0" "x1 \<noteq> 0"
    using tol_corners [OF assms(1,4,5)] assms(9) by auto
  have r2: "0 \<le> r2" and r23: "0 \<le> r2 + r3" using assms(2,3) by simp_all
  have lo: "(r2 + r3) * (1 - t) \<le> x2 + x3" and hi: "x2 + x3 \<le> (r2 + r3) * (1 + t)"
    using assms(11-14) by (simp_all add: distrib_right)
  note prog = ratio_bounds [OF assms(1) r2 assms(4-12)]
  note hyst = ratio_bounds [OF assms(1) r23 assms(4-10) lo hi]
  show ?thesis
    using nz prog hyst
    by (simp add: ok_bounds_def vbat_ok_prog_def vbat_ok_hyst_def distrib_right)
qed


section \<open>Searches on concrete pools\<close>


lemma Optimizer_init_E24_decade_minus_324:
  "Optimizer_init (ESeries_init ''E24'' (- 324) (- 324)) rmax k lims =
     Inr \<lparr>series = ESeries_init ''E24'' (- 324) (- 324), rsum_max = rmax, limit = k,
       limits = lims, pool = replicate 24 0\<rparr>"
  by (simp add: Optimizer_init_def E24_decade_minus_324)



lemma search_ok_small_pool:
  "search_ok
     \<lparr>series = ESeries_init ''E24'' 6 6, rsum_max = 13000000, limit = 2,
       limits = \<lparr>vbat_uv = 1.95, vbat_ov_target = Some 4.2\<rparr>,
       pool = [1000000, 2000000]\<rparr>
     (Some 3.5) (Some 3.7) =
     Inr [\<lparr>three_error = 1.15, three_v_prog = 2.42, three_v_hyst = 3.63, three_r1 = 1000000,
            three_r2 = 1000000, three_r3 = 1000000, three_rsum = 3000000\<rparr>,
          \<lparr>three_error = 1.15, three_v_prog = 2.42, three_v_hyst = 3.63, three_r1 = 2000000,
            three_r2 = 2000000, three_r3 = 2000000, three_rsum = 6000000\<rparr>]"
  by (simp add: search_ok_def search_ok_cands_def search_ok_mid_def search_ok_body_def
      vbat_ok_prog_def vbat_ok_hyst_def ok_relationships_def VBIAS_TYP_def slice_to_def Let_def)

lemma search_two_cands_never_exceed_E24:
  "search_two_cands
     \<lparr>series = ESeries_init ''E24'' 6 6, rsum_max = 2100000, limit = k,
       limits = lims,
       pool = [1000000, 1100000, 1200000, 1300000, 1500000, 1600000, 1800000, 2000000,
          2200000, 2400000, 2700000, 3000000, 3300000, 3600000, 3900000, 4300000,
          4700000, 5100000, 5600000, 6200000, 6800000, 7500000, 8200000, 9100000]\<rparr>
     4.2 vbat_ov (Some 3.65) 0.01 =
     Inr [\<lparr>two_error = 0.735, two_v_nom = 3.465, two_r1 = 1100000, two_r2 = 1000000,
            two_rsum = 2100000\<rparr>]"
  by (simp add: search_two_cands_def search_two_body_def two_res_bounds_def
      vbat_ov_def VBIAS_TYP_def VBIAS_MIN_def VBIAS_MAX_def Let_def)

section \<open>The claims\<close>

text \<open>
  C1. Interval soundness of the worst-case bounds. For strictly positive nominal resistors,
  a tolerance \<open>0 \<le> t < 1\<close> and bias corners \<open>0 < v_lo \<le> v_hi\<close>: whatever resistors
  \<open>x1, x2, x3\<close> lie within \<open>t\<close> of the nominal ones and whatever bias \<open>v\<close> lies between
  the corners, \<open>two_res_bounds\<close> returns an interval that contains the output of
  \<open>vout\<close>, \<open>vbat_ov\<close> and \<open>vbat_ok_prog\<close>, and \<open>ok_bounds\<close> returns two intervals that
  contain the outputs of \<open>vbat_ok_prog\<close> and \<open>vbat_ok_hyst\<close>. Each bound is one
  evaluation of the formula at one corner; no computation faults.
\<close>

theorem worst_case_bounds_sound:
  assumes "0 < r1" "0 < r2" "0 < r3" "0 \<le> t" "t < 1" "0 < v_lo" "v_lo \<le> v_hi"
    and "r1 * (1 - t) \<le> x1" "x1 \<le> r1 * (1 + t)"
    and "r2 * (1 - t) \<le> x2" "x2 \<le> r2 * (1 + t)"
    and "r3 * (1 - t) \<le> x3" "x3 \<le> r3 * (1 + t)"
    and "v_lo \<le> v" "v \<le> v_hi"
  shows "(\<forall>vfunc \<in> {vout, vbat_ov, vbat_ok_prog}.
       \<exists>v_min v_max u. two_res_bounds vfunc r1 r2 t (v_lo, v_hi) = Inr (v_min, v_max) \<and>
         vfunc x1 x2 v = Inr u \<and> v_min \<le> u \<and> u \<le> v_max) \<and>
     (\<exists>vp_min vp_max vh_min vh_max vp vh.
       ok_bounds r1 r2 r3 t (v_lo, v_hi) = Inr ((vp_min, vp_max), (vh_min, vh_max)) \<and>
       vbat_ok_prog x1 x2 v = Inr vp \<and> vbat_ok_hyst x1 x2 x3 v = Inr vh \<and>
       vp_min \<le> vp \<and> vp \<le> vp_max \<and> vh_min \<le> vh \<and> vh \<le> vh_max)"
proof -
  note two = assms(1,2,4,5,6,14,15,8,9,10,11)
  have "\<exists>v_min v_max u. two_res_bounds vfunc r1 r2 t (v_lo, v_hi) = Inr (v_min, v_max) \<and>
         vfunc x1 x2 v = Inr u \<and> v_min \<le> u \<and> u \<le> v_max"
    if "vfunc \<in> {vout, vbat_ov, vbat_ok_prog}" for vfunc
    using that vout_bounds [OF two] vbat_ov_bounds [OF two] vbat_ok_prog_bounds [OF two]
    by blast
  moreover note ok_bounds_sound [OF assms(1-6) assms(14,15) assms(8-13)]
  ultimately show ?thesis by blast
qed

theorem worst_case_bounds_sound_witness:
  "(0::real) < 1000000 \<and> (0::real) < 2000000 \<and> (0::real) \<le> 0.01 \<and> (0.01::real) < 1 \<and>
   (0::real) < 1.205 \<and> (1.205::real) \<le> 1.217 \<and>
   (1000000::real) * (1 - 0.01) \<le> 1005000 \<and> (1005000::real) \<le> 1000000 * (1 + 0.01) \<and>
   (2000000::real) * (1 - 0.01) \<le> 1990000 \<and> (1990000::real) \<le> 2000000 * (1 + 0.01) \<and>
   (1000000::real) * (1 - 0.01) \<le> 1010000 \<and> (1010000::real) \<le> 1000000 * (1 + 0.01) \<and>
   (1.205::real) \<le> 1.21 \<and> (1.21::real) \<le> 1.217 \<and>
   (\<exists>v_min v_max u. two_res_bounds vbat_ov 1000000 2000000 0.01 (1.205, 1.217) = Inr (v_min, v_max) \<and>
      vbat_ov 1005000 1990000 1.21 = Inr u \<and> v_min \<le> u \<and> u \<le> v_max) \<and>
   (\<exists>vp_min vp_max vh_min vh_max vp vh.
      ok_bounds 1000000 2000000 1000000 0.01 (1.205, 1.217) = Inr ((vp_min, vp_max), (vh_min, vh_max)) \<and>
      vbat_ok_prog 1005000 1990000 1.21 = Inr vp \<and>
      vbat_ok_hyst 1005000 1990000 1010000 1.21 = Inr vh \<and>
      vp_min \<le> vp \<and> vp \<le> vp_max \<and> vh_min \<le> vh \<and> vh \<le> vh_max)"
  using worst_case_bounds_sound [where ?r1.0 = 1000000 and ?r2.0 = 2000000 and ?r3.0 = 1000000
      and t = "0.01" and v_lo = "1.205" and v_hi = "1.217" and ?x1.0 = 1005000 and ?x2.0 = 1990000
      and ?x3.0 = 1010000 and v = "1.21"]
  by simp

text \<open>
  C2 (amended). For strictly positive resistors and a tolerance \<open>0 \<le> t < 1\<close>, the
  nominal output of each transfer function, at the bias \<open>VBIAS_TYP\<close>, lies within the
  interval the worst-case computation returns at the same \<open>t\<close> with the corners
  \<open>(VBIAS_MIN, VBIAS_MAX)\<close>.
\<close>

theorem nominal_within_bounds:
  assumes "0 < r1" "0 < r2" "0 < r3" "0 \<le> t" "t < 1"
  shows "(\<forall>vfunc \<in> {vout, vbat_ov, vbat_ok_prog}.
       \<exists>v_min v_max u. two_res_bounds vfunc r1 r2 t (VBIAS_MIN, VBIAS_MAX) = Inr (v_min, v_max) \<and>
         vfunc r1 r2 VBIAS_TYP = Inr u \<and> v_min \<le> u \<and> u \<le> v_max) \<and>
     (\<exists>vp_min vp_max vh_min vh_max vp vh.
       ok_bounds r1 r2 r3 t (VBIAS_MIN, VBIAS_MAX) = Inr ((vp_min, vp_max), (vh_min, vh_max)) \<and>
       vbat_ok_prog r1 r2 VBIAS_TYP = Inr vp \<and> vbat_ok_hyst r1 r2 r3 VBIAS_TYP = Inr vh \<and>
       vp_min \<le> vp \<and> vp \<le> vp_max \<and> vh_min \<le> vh \<and> vh \<le> vh_max)"
proof -
  note c1 = tol_corners(2,3) [OF assms(1,4,5)]
  note c2 = tol_corners(2,3) [OF assms(2,4,5)]
  note c3 = tol_corners(2,3) [OF assms(3,4,5)]
  note two = assms(1,2,4,5) bias_corners c1 c2
  have "\<exists>v_min v_max u. two_res_bounds vfunc r1 r2 t (VBIAS_MIN, VBIAS_MAX) = Inr (v_min, v_max) \<and>
         vfunc r1 r2 VBIAS_TYP = Inr u \<and> v_min \<le> u \<and> u \<le> v_max"
    if "vfunc \<in> {vout, vbat_ov, vbat_ok_prog}" for vfunc
    using that vout_bounds [OF two] vbat_ov_bounds [OF two] vbat_ok_prog_bounds [OF two]
    by blast
  moreover note ok_bounds_sound [OF assms bias_corners c1 c2 c3]
  ultimately show ?thesis by blast
qed

theorem nominal_within_bounds_witness:
  "(0::real) < 1000000 \<and> (0::real) < 2000000 \<and> (0::real) \<le> 0.01 \<and> (0.01::real) < 1 \<and>
   (\<exists>v_min v_max u.
      two_res_bounds vout 1000000 2000000 0.01 (VBIAS_MIN, VBIAS_MAX) = Inr (v_min, v_max) \<and>
      vout 1000000 2000000 VBIAS_TYP = Inr u \<and> v_min \<le> u \<and> u \<le> v_max) \<and>
   (\<exists>vp_min vp_max vh_min vh_max vp vh.
      ok_bounds 1000000 2000000 1000000 0.01 (VBIAS_MIN, VBIAS_MAX) =
        Inr ((vp_min, vp_max), (vh_min, vh_max)) \<and>
      vbat_ok_prog 1000000 2000000 VBIAS_TYP = Inr vp \<and>
      vbat_ok_hyst 1000000 2000000 1000000 VBIAS_TYP = Inr vh \<and>
      vp_min \<le> vp \<and> vp \<le> vp_max \<and> vh_min \<le> vh \<and> vh \<le> vh_max)"
  using nominal_within_bounds [where ?r1.0 = 1000000 and ?r2.0 = 2000000 and ?r3.0 = 1000000
      and t = "0.01"]
  by simp

text \<open>
  C2 as stated, for every \<open>t \<ge> 0\<close>, fails: at \<open>t = 2\<close> the corner \<open>r1 * (1 - t)\<close> is
  negative, and the upper bound of \<open>vout\<close> for two resistors of 1 ohm is \<open>-2.434\<close>,
  below the nominal \<open>2.42\<close>.
\<close>

theorem nominal_outside_bounds_tol_2:
  "two_res_bounds vout 1 1 2 (VBIAS_MIN, VBIAS_MAX) = Inr (241 / 300, - 2.434) \<and>
   vout 1 1 VBIAS_TYP = Inr 2.42 \<and> \<not> (2.42 \<le> (- 2.434 :: real))"
  by (simp add: two_res_bounds_def vout_def VBIAS_MIN_def VBIAS_MAX_def VBIAS_TYP_def)




text \<open>
  C4. Every candidate in a list returned by \<open>search_ok\<close> satisfies \<open>ok_relationships\<close>
  on its programmed and hysteresis thresholds, under the limits of the optimizer, whatever
  the pool, the ceiling, the limit and the targets.
\<close>

theorem search_ok_relationships:
  "search_ok self target_prog target_hyst = Inr res \<Longrightarrow>
     \<forall>c\<in>set res. ok_relationships (limits self) (three_v_prog c) (three_v_hyst c)"
  by (rule search_ok_ok)

theorem search_ok_relationships_witness:
  "search_ok
     \<lparr>series = ESeries_init ''E24'' 6 6, rsum_max = 13000000, limit = 2,
       limits = \<lparr>vbat_uv = 1.95, vbat_ov_target = Some 4.2\<rparr>,
       pool = [1000000, 2000000]\<rparr>
     (Some 3.5) (Some 3.7) =
     Inr [\<lparr>three_error = 1.15, three_v_prog = 2.42, three_v_hyst = 3.63, three_r1 = 1000000,
            three_r2 = 1000000, three_r3 = 1000000, three_rsum = 3000000\<rparr>,
          \<lparr>three_error = 1.15, three_v_prog = 2.42, three_v_hyst = 3.63, three_r1 = 2000000,
            three_r2 = 2000000, three_r3 = 2000000, three_rsum = 6000000\<rparr>] \<and>
   ok_relationships \<lparr>vbat_uv = 1.95, vbat_ov_target = Some 4.2\<rparr> 2.42 3.63"
  using search_ok_relationships [OF search_ok_small_pool] search_ok_small_pool
  by simp

text \<open>
  C5. Monotonicity of the never-exceed filter. Two runs of the loops of \<open>search_two\<close>
  that differ in the ceiling only, \<open>ne' \<le> ne\<close>: when the run under \<open>ne'\<close> returns its
  candidates, the run under \<open>ne\<close> returns too, and every (bottom, top) pair accepted under
  \<open>ne'\<close> is accepted under \<open>ne\<close>. The candidates are those before the sort and the cut
  to the limit.
\<close>

theorem never_exceed_monotone:
  assumes "ne' \<le> ne"
    and "search_two_cands self target vfunc (Some ne') tol = Inr cs'"
  shows "\<exists>cs. search_two_cands self target vfunc (Some ne) tol = Inr cs \<and>
     (\<lambda>c. (two_r1 c, two_r2 c)) ` set cs' \<subseteq> (\<lambda>c. (two_r1 c, two_r2 c)) ` set cs"
proof -
  from search_two_cands_rel [OF assms(1), of self target vfunc tol] assms(2)
  obtain cs where "search_two_cands self target vfunc (Some ne) tol = Inr cs" "set cs' \<subseteq> set cs"
    by (cases "search_two_cands self target vfunc (Some ne) tol") simp_all
  then show ?thesis by blast
qed

theorem never_exceed_monotone_witness:
  "(3.65::real) \<le> 4.2 \<and>
   search_two_cands
     \<lparr>series = ESeries_init ''E24'' 6 6, rsum_max = 2100000, limit = 4,
       limits = \<lparr>vbat_uv = 1.95, vbat_ov_target = Some 4.2\<rparr>,
       pool = [1000000, 1100000, 1200000, 1300000, 1500000, 1600000, 1800000, 2000000,
          2200000, 2400000, 2700000, 3000000, 3300000, 3600000, 3900000, 4300000,
          4700000, 5100000, 5600000, 6200000, 6800000, 7500000, 8200000, 9100000]\<rparr>
     4.2 vbat_ov (Some 3.65) 0.01 =
     Inr [\<lparr>two_error = 0.735, two_v_nom = 3.465, two_r1 = 1100000, two_r2 = 1000000,
            two_rsum = 2100000\<rparr>] \<and>
   (\<exists>cs. search_two_cands
     \<lparr>series = ESeries_init ''E24'' 6 6, rsum_max = 2100000, limit = 4,
       limits = \<lparr>vbat_uv = 1.95, vbat_ov_target = Some 4.2\<rparr>,
       pool = [1000000, 1100000, 1200000, 1300000, 1500000, 1600000, 1800000, 2000000,
          2200000, 2400000, 2700000, 3000000, 3300000, 3600000, 3900000, 4300000,
          4700000, 5100000, 5600000, 6200000, 6800000, 7500000, 8200000, 9100000]\<rparr>
     4.2 vbat_ov (Some 4.2) 0.01 = Inr cs \<and>
      (1100000, 1000000) \<in> (\<lambda>c. (two_r1 c, two_r2 c)) ` set cs)"
proof -
  let ?self = "\<lparr>series = ESeries_init ''E24'' 6 6, rsum_max = 2100000, limit = 4,
       limits = \<lparr>vbat_uv = 1.95, vbat_ov_target = Some 4.2\<rparr>,
       pool = [1000000, 1100000, 1200000, 1300000, 1500000, 1600000, 1800000, 2000000,
          2200000, 2400000, 2700000, 3000000, 3300000, 3600000, 3900000, 4300000,
          4700000, 5100000, 5600000, 6200000, 6800000, 7500000, 8200000, 9100000]\<rparr>"
  have le: "(3.65::real) \<le> 4.2" by simp
  have tight: "search_two_cands ?self 4.2 vbat_ov (Some 3.65) 0.01 =
     Inr [\<lparr>two_error = 0.735, two_v_nom = 3.465, two_r1 = 1100000, two_r2 = 1000000,
            two_rsum = 2100000\<rparr>]"
    by (rule search_two_cands_never_exceed_E24)
  from never_exceed_monotone [OF le tight]
  obtain cs where cs: "search_two_cands ?self 4.2 vbat_ov (Some 4.2) 0.01 = Inr cs"
    and sub: "(\<lambda>c. (two_r1 c, two_r2 c)) `
        set [\<lparr>two_error = 0.735, two_v_nom = 3.465, two_r1 = 1100000, two_r2 = 1000000,
            two_rsum = 2100000\<rparr>]
      \<subseteq> (\<lambda>c. (two_r1 c, two_r2 c)) ` set cs"
    by blast
  from sub have "(1100000, 1000000) \<in> (\<lambda>c. (two_r1 c, two_r2 c)) ` set cs"
    by simp
  with le cs tight show ?thesis by blast
qed

text \<open>
  C6. \<open>ok_relationships\<close> is false when the programmed threshold is below the
  undervoltage floor, false when the hysteresis threshold is below the programmed one,
  false when a ceiling is configured and the hysteresis threshold exceeds it, and true
  otherwise; with the floor 1.95 and the ceiling 4.2 it accepts (3.5, 3.7) and rejects
  (1.9, 3.7).
\<close>

theorem ok_relationships_spec:
  "(v_prog < vbat_uv self \<longrightarrow> \<not> ok_relationships self v_prog v_hyst) \<and>
   (v_hyst < v_prog \<longrightarrow> \<not> ok_relationships self v_prog v_hyst) \<and>
   (\<forall>ov. vbat_ov_target self = Some ov \<and> ov < v_hyst \<longrightarrow>
      \<not> ok_relationships self v_prog v_hyst) \<and>
   (\<not> v_prog < vbat_uv self \<and> \<not> v_hyst < v_prog \<and>
      (\<forall>ov. vbat_ov_target self = Some ov \<longrightarrow> \<not> ov < v_hyst) \<longrightarrow>
      ok_relationships self v_prog v_hyst) \<and>
   ok_relationships \<lparr>vbat_uv = 1.95, vbat_ov_target = Some 4.2\<rparr> 3.5 3.7 \<and>
   \<not> ok_relationships \<lparr>vbat_uv = 1.95, vbat_ov_target = Some 4.2\<rparr> 1.9 3.7"
  by (simp add: ok_relationships_def split: option.splits)

theorem ok_relationships_spec_witness:
  "(3::real) < 3.5 \<and>
   \<not> ok_relationships \<lparr>vbat_uv = 1.95, vbat_ov_target = Some 4.2\<rparr> 3.5 3 \<and>
   (4.2::real) < 4.5 \<and>
   \<not> ok_relationships \<lparr>vbat_uv = 1.95, vbat_ov_target = Some 4.2\<rparr> 3.5 4.5 \<and>
   ok_relationships \<lparr>vbat_uv = 1.95, vbat_ov_target = None\<rparr> 3.5 4.5"
proof -
  let ?L = "\<lparr>vbat_uv = 1.95, vbat_ov_target = Some 4.2\<rparr>"
  let ?N = "\<lparr>vbat_uv = 1.95, vbat_ov_target = None\<rparr>"
  have below: "(3::real) < 3.5" and above: "(4.2::real) < 4.5"
    by simp_all
  have ceiling: "vbat_ov_target ?L = Some 4.2"
    by simp
  have "\<not> ok_relationships ?L 3.5 3"
    using ok_relationships_spec [where self = ?L and v_prog = "3.5" and v_hyst = 3] below
    by blast
  moreover have "\<not> ok_relationships ?L 3.5 4.5"
    using ok_relationships_spec [where self = ?L and v_prog = "3.5" and v_hyst = "4.5"]
      ceiling above
    by blast
  moreover have "ok_relationships ?N 3.5 4.5"
    using ok_relationships_spec [where self = ?N and v_prog = "3.5" and v_hyst = "4.5"]
    by simp
  ultimately show ?thesis
    using below above by blast
qed

text \<open>
  C7. For a strictly positive bottom resistor the four transfer functions return
  \<open>vbias * (1 + r2 / r1)\<close>, \<open>1.5 * vbias * (1 + r2 / r1)\<close>, \<open>vbias * (1 + r2 / r1)\<close> and
  \<open>vbias * (1 + (r2 + r3) / r1)\<close>; in particular \<open>vout\<close> of two resistors of one
  megohm at 1.21 V is 2.42 V.
\<close>

theorem transfer_functions_exact:
  "(0 < r1 \<longrightarrow>
      vout r1 r2 vbias = Inr (vbias * (1 + r2 / r1)) \<and>
      vbat_ov r1 r2 vbias = Inr (1.5 * vbias * (1 + r2 / r1)) \<and>
      vbat_ok_prog r1 r2 vbias = Inr (vbias * (1 + r2 / r1)) \<and>
      vbat_ok_hyst r1 r2 r3 vbias = Inr (vbias * (1 + (r2 + r3) / r1))) \<and>
   vout 1000000 1000000 1.21 = Inr 2.42"
  by (simp add: vout_def vbat_ov_def vbat_ok_prog_def vbat_ok_hyst_def)

theorem transfer_functions_exact_witness:
  "(0::real) < 1000000 \<and>
   vout 1000000 2000000 1.21 = Inr (1.21 * (1 + 2000000 / 1000000)) \<and>
   vbat_ov 1000000 2000000 1.21 = Inr (1.5 * 1.21 * (1 + 2000000 / 1000000)) \<and>
   vbat_ok_prog 1000000 2000000 1.21 = Inr (1.21 * (1 + 2000000 / 1000000)) \<and>
   vbat_ok_hyst 1000000 2000000 3000000 1.21 = Inr (1.21 * (1 + (2000000 + 3000000) / 1000000))"
  using transfer_functions_exact [where ?r1.0 = 1000000 and ?r2.0 = 2000000 and ?r3.0 = 3000000
      and vbias = "1.21"]
  by simp

text \<open>
  C8 (amended). Whatever the series name, and for every decade range within
  \<open>-307 \<le> d \<le> 307\<close>: \<open>values\<close> returns a list that is strictly increasing, whose
  elements are all strictly positive, and which as a set is the mantissas of the table the
  name selects (the 24-entry table for the name E24, the 96-entry table for every other
  name), each multiplied by \<open>10 powi d\<close> for every \<open>d\<close> of the range. The 24-value series
  over decade 6 alone has 24 values, the first 1.0e6 and the last 9.1e6.
\<close>

theorem ESeries_values_spec:
  "(- 307 \<le> decade_min self \<and> decade_max self \<le> 307 \<longrightarrow>
      (\<exists>vals. ESeries_values self = Inr vals \<and>
         sorted_wrt (<) vals \<and>
         (\<forall>x\<in>set vals. 0 < x) \<and>
         set vals =
           {b * 10 powi d | b d.
              b \<in> set (if name self = ''E24'' then E24_BASE else E96_BASE) \<and>
              decade_min self \<le> d \<and> d \<le> decade_max self})) \<and>
   length E24_BASE = 24 \<and> length E96_BASE = 96 \<and>
   (\<exists>vals. ESeries_values (ESeries_init ''E24'' 6 6) = Inr vals \<and>
      length vals = 24 \<and> hd vals = 1000000 \<and> last vals = 9100000)"
proof -
  let ?base = "if name self = ''E24'' then E24_BASE else E96_BASE"
  let ?ds = "[decade_min self .. decade_max self]"
  let ?vals = "sort (concat (map (\<lambda>d. map (\<lambda>b. b * 10 powi d) ?base) ?ds))"
  have base: "ESeries_base self = ?base"
    by (simp add: ESeries_base_def)
  have general: "\<exists>vals. ESeries_values self = Inr vals \<and> sorted_wrt (<) vals \<and>
      (\<forall>x\<in>set vals. 0 < x) \<and>
      set vals = {b * 10 powi d | b d. b \<in> set ?base \<and> decade_min self \<le> d \<and> d \<le> decade_max self}"
    if range: "- 307 \<le> decade_min self \<and> decade_max self \<le> 307"
  proof -
    have returns: "ESeries_values self = Inr ?vals"
      using ESeries_values_normal [of self] range base by simp
    have strict: "sorted_wrt (<) ?vals"
      using decades_strict [of "ESeries_base self" ?ds]
        ESeries_base_distinct [of self] ESeries_base_range [of _ self] base
      by simp
    have members: "set ?vals =
        {b * 10 powi d | b d. b \<in> set ?base \<and> decade_min self \<le> d \<and> d \<le> decade_max self}"
      using decades_set [of ?base ?ds] by simp
    have "0 < x" if "x \<in> set ?vals" for x
    proof -
      from that members obtain b d where "x = b * 10 powi d" "b \<in> set ?base"
        by blast
      with ESeries_base_range [of b self] base show ?thesis by simp
    qed
    with returns strict members show ?thesis by blast
  qed
  have tables: "length E24_BASE = 24" "length E96_BASE = 96"
    by (simp_all add: E24_BASE_def E96_BASE_def)
  have decade_6: "\<exists>vals. ESeries_values (ESeries_init ''E24'' 6 6) = Inr vals \<and>
      length vals = 24 \<and> hd vals = 1000000 \<and> last vals = 9100000"
    by (simp add: E24_decade_6)
  from general tables decade_6 show ?thesis by blast
qed

theorem ESeries_values_spec_witness:
  "(- 307 :: int) \<le> 6 \<and> (7 :: int) \<le> 307 \<and>
   (\<exists>vals. ESeries_values (ESeries_init ''E96'' 6 7) = Inr vals \<and>
      sorted_wrt (<) vals \<and> 1020000 \<in> set vals \<and> 97600000 \<in> set vals)"
proof -
  let ?self = "ESeries_init ''E96'' 6 7"
  have fields: "decade_min ?self = 6" "decade_max ?self = 7"
    by (simp_all add: ESeries_init_def)
  have table: "(if name ?self = ''E24'' then E24_BASE else E96_BASE) = E96_BASE"
    by (simp add: ESeries_init_def upper_E96)
  have range: "- 307 \<le> decade_min ?self \<and> decade_max ?self \<le> 307"
    by (simp add: fields)
  note spec = ESeries_values_spec [where self = ?self, unfolded table, THEN conjunct1, THEN mp,
      OF range, unfolded fields]
  from spec obtain vals where all: "ESeries_values ?self = Inr vals \<and>
      sorted_wrt (<) vals \<and> (\<forall>x\<in>set vals. 0 < x) \<and>
      set vals = {b * 10 powi d | b d. b \<in> set E96_BASE \<and> 6 \<le> d \<and> d \<le> 7}" ..
  then have returns: "ESeries_values ?self = Inr vals" and strict: "sorted_wrt (<) vals"
    and members: "set vals = {b * 10 powi d | b d. b \<in> set E96_BASE \<and> 6 \<le> d \<and> d \<le> 7}"
    by simp_all
  have low: "1020000 \<in> {b * 10 powi d | b d. b \<in> set E96_BASE \<and> (6::int) \<le> d \<and> d \<le> 7}"
    unfolding mem_Collect_eq
    by (rule exI [of _ "1.02"], rule exI [of _ 6], simp add: E96_BASE_def)
  have high: "97600000 \<in> {b * 10 powi d | b d. b \<in> set E96_BASE \<and> (6::int) \<le> d \<and> d \<le> 7}"
    unfolding mem_Collect_eq
    by (rule exI [of _ "9.76"], rule exI [of _ 7], simp add: E96_BASE_def)
  from low high have "1020000 \<in> set vals" "97600000 \<in> set vals"
    unfolding members by this+
  with returns strict have "ESeries_values ?self = Inr vals \<and>
      sorted_wrt (<) vals \<and> 1020000 \<in> set vals \<and> 97600000 \<in> set vals"
    by simp
  then have "\<exists>vals. ESeries_values ?self = Inr vals \<and>
      sorted_wrt (<) vals \<and> 1020000 \<in> set vals \<and> 97600000 \<in> set vals" ..
  then show ?thesis
    by simp
qed

text \<open>
  C8 as stated, for every decade range, fails at the ends of the range of a double. At
  decade \<open>-324\<close> the power of ten is \<open>0.0\<close> and the 24-value series is 24 zeros: not
  strictly increasing and not positive. At decade 309 the first product raises
  \<^verbatim>\<open>OverflowError\<close> and no list is returned.
\<close>

theorem ESeries_values_extreme_decades:
  "ESeries_values (ESeries_init ''E24'' (- 324) (- 324)) = Inr (replicate 24 0) \<and>
   \<not> sorted_wrt (<) (replicate 24 (0::real)) \<and>
   \<not> (\<forall>x\<in>set (replicate 24 (0::real)). 0 < x) \<and>
   ESeries_values (ESeries_init ''E24'' 309 309) = Inl OverflowError"
  by (simp add: E24_decade_minus_324 E24_decade_309 eval_nat_numeral)

text \<open>
  C9 (amended). Degenerate configurations give empty lists and no fault. With an inverted
  decade span \<open>values\<close> returns the empty list, the constructor returns an optimizer with
  an empty pool, and both searches return the empty list. \<open>search_two\<close> with a checker
  that rejects the target returns the empty list, whatever the pool and the transfer
  function, so before any pair is evaluated. \<open>search_ok\<close> with neither target returns
  the empty list when no value of the pool is zero.
\<close>

theorem degenerate_configurations:
  "(dmax < dmin \<longrightarrow>
      ESeries_values (ESeries_init nm dmin dmax) = Inr [] \<and>
      (\<exists>opt. Optimizer_init (ESeries_init nm dmin dmax) rmax k lims = Inr opt \<and>
         pool opt = [] \<and>
         search_two opt target vfunc never_exceed tol_for_ne target_checker = Inr [] \<and>
         search_ok opt target_prog target_hyst = Inr [])) \<and>
   (\<not> chk target \<longrightarrow> search_two self target vfunc never_exceed tol_for_ne (Some chk) = Inr []) \<and>
   ((\<forall>r\<in>set (pool self). r \<noteq> 0) \<longrightarrow> search_ok self None None = Inr [])"
proof -
  have inverted: "dmax < dmin \<longrightarrow>
      ESeries_values (ESeries_init nm dmin dmax) = Inr [] \<and>
      (\<exists>opt. Optimizer_init (ESeries_init nm dmin dmax) rmax k lims = Inr opt \<and>
         pool opt = [] \<and>
         search_two opt target vfunc never_exceed tol_for_ne target_checker = Inr [] \<and>
         search_ok opt target_prog target_hyst = Inr [])"
  proof
    assume span: "dmax < dmin"
    let ?opt = "\<lparr>series = ESeries_init nm dmin dmax, rsum_max = rmax, limit = k,
      limits = lims, pool = []\<rparr>"
    have empty: "ESeries_values (ESeries_init nm dmin dmax) = Inr []"
      using span by (simp add: ESeries_values_inverted ESeries_init_def)
    then have init: "Optimizer_init (ESeries_init nm dmin dmax) rmax k lims = Inr ?opt"
      by (simp add: Optimizer_init_def)
    have no_pool: "pool ?opt = []"
      by simp
    have two: "search_two ?opt target vfunc never_exceed tol_for_ne target_checker = Inr []"
      using no_pool by (rule search_two_empty_pool)
    have ok: "search_ok ?opt target_prog target_hyst = Inr []"
      using no_pool by (rule search_ok_empty_pool)
    from init no_pool two ok
    have "\<exists>opt. Optimizer_init (ESeries_init nm dmin dmax) rmax k lims = Inr opt \<and>
         pool opt = [] \<and>
         search_two opt target vfunc never_exceed tol_for_ne target_checker = Inr [] \<and>
         search_ok opt target_prog target_hyst = Inr []"
      by (intro exI [of _ ?opt] conjI)
    with empty show "ESeries_values (ESeries_init nm dmin dmax) = Inr [] \<and>
      (\<exists>opt. Optimizer_init (ESeries_init nm dmin dmax) rmax k lims = Inr opt \<and>
         pool opt = [] \<and>
         search_two opt target vfunc never_exceed tol_for_ne target_checker = Inr [] \<and>
         search_ok opt target_prog target_hyst = Inr [])" ..
  qed
  have rejected: "\<not> chk target \<longrightarrow>
      search_two self target vfunc never_exceed tol_for_ne (Some chk) = Inr []"
    by (simp add: search_two_rejected)
  have no_targets: "(\<forall>r\<in>set (pool self). r \<noteq> 0) \<longrightarrow> search_ok self None None = Inr []"
    by (simp add: search_ok_no_targets)
  from inverted rejected no_targets show ?thesis
    by (intro conjI)
qed

theorem degenerate_configurations_witness:
  "(6::int) < 7 \<and>
   ESeries_values (ESeries_init ''E24'' 7 6) = Inr [] \<and>
   (\<exists>opt. Optimizer_init (ESeries_init ''E24'' 7 6) 13000000 4 \<lparr>vbat_uv = 1.95, vbat_ov_target = None\<rparr> = Inr opt \<and>
      pool opt = [] \<and>
      search_two opt 3.3 vout None 0.01 None = Inr [] \<and>
      search_ok opt (Some 3.5) (Some 3.7) = Inr []) \<and>
   \<not> allow_vout_target \<lparr>vbat_uv = 1.95, vbat_ov_target = None\<rparr> 1.8 \<and>
   search_two
     \<lparr>series = ESeries_init ''E24'' 6 6, rsum_max = 13000000, limit = 4,
       limits = \<lparr>vbat_uv = 1.95, vbat_ov_target = None\<rparr>,
       pool = [1000000, 1100000, 1200000, 1300000, 1500000, 1600000, 1800000, 2000000,
          2200000, 2400000, 2700000, 3000000, 3300000, 3600000, 3900000, 4300000,
          4700000, 5100000, 5600000, 6200000, 6800000, 7500000, 8200000, 9100000]\<rparr>
     1.8 vout None 0.01 (Some (allow_vout_target \<lparr>vbat_uv = 1.95, vbat_ov_target = None\<rparr>)) = Inr [] \<and>
   search_ok
     \<lparr>series = ESeries_init ''E24'' 6 6, rsum_max = 13000000, limit = 4,
       limits = \<lparr>vbat_uv = 1.95, vbat_ov_target = None\<rparr>,
       pool = [1000000, 1100000, 1200000, 1300000, 1500000, 1600000, 1800000, 2000000,
          2200000, 2400000, 2700000, 3000000, 3300000, 3600000, 3900000, 4300000,
          4700000, 5100000, 5600000, 6200000, 6800000, 7500000, 8200000, 9100000]\<rparr>
     None None = Inr []"
proof -
  let ?lims = "\<lparr>vbat_uv = 1.95, vbat_ov_target = None\<rparr>"
  let ?self = "\<lparr>series = ESeries_init ''E24'' 6 6, rsum_max = 13000000, limit = 4,
       limits = \<lparr>vbat_uv = 1.95, vbat_ov_target = None\<rparr>,
       pool = [1000000, 1100000, 1200000, 1300000, 1500000, 1600000, 1800000, 2000000,
          2200000, 2400000, 2700000, 3000000, 3300000, 3600000, 3900000, 4300000,
          4700000, 5100000, 5600000, 6200000, 6800000, 7500000, 8200000, 9100000]\<rparr>"
  have inverted: "(6::int) < 7"
    by simp
  have rejected: "\<not> allow_vout_target ?lims 1.8"
    by (simp add: allow_vout_target_def)
  have nonzero: "\<forall>r\<in>set (pool ?self). r \<noteq> 0"
    by simp
  note spec = degenerate_configurations [where dmin = 7 and dmax = 6 and nm = "''E24''"
      and rmax = 13000000 and k = 4 and lims = ?lims and target = "3.3" and vfunc = vout
      and never_exceed = None and tol_for_ne = "0.01" and target_checker = None
      and target_prog = "Some 3.5" and target_hyst = "Some 3.7"]
  note spec' = degenerate_configurations [where chk = "allow_vout_target ?lims"
      and target = "1.8" and vfunc = vout and never_exceed = None and tol_for_ne = "0.01"
      and self = ?self]
  from spec inverted have "ESeries_values (ESeries_init ''E24'' 7 6) = Inr [] \<and>
     (\<exists>opt. Optimizer_init (ESeries_init ''E24'' 7 6) 13000000 4 ?lims = Inr opt \<and>
        pool opt = [] \<and>
        search_two opt 3.3 vout None 0.01 None = Inr [] \<and>
        search_ok opt (Some 3.5) (Some 3.7) = Inr [])"
    by blast
  moreover from spec' rejected
  have "search_two ?self 1.8 vout None 0.01 (Some (allow_vout_target ?lims)) = Inr []"
    by blast
  moreover from spec' nonzero have "search_ok ?self None None = Inr []"
    by blast
  ultimately show ?thesis
    using inverted rejected by blast
qed

text \<open>
  C9 as stated fails for \<open>search_ok\<close> with neither target: the loops still evaluate
  \<open>vbat_ok_prog\<close> on every pair, and on the pool of the 24-value series at decade
  \<open>-324\<close>, which is 24 zeros, the first division raises \<^verbatim>\<open>ZeroDivisionError\<close>.
\<close>

theorem search_ok_no_targets_zero_pool:
  "Optimizer_init (ESeries_init ''E24'' (- 324) (- 324)) 13000000 4 \<lparr>vbat_uv = 1.95, vbat_ov_target = None\<rparr> =
     Inr \<lparr>series = ESeries_init ''E24'' (- 324) (- 324), rsum_max = 13000000, limit = 4,
       limits = \<lparr>vbat_uv = 1.95, vbat_ov_target = None\<rparr>, pool = replicate 24 0\<rparr> \<and>
   search_ok
     \<lparr>series = ESeries_init ''E24'' (- 324) (- 324), rsum_max = 13000000, limit = 4,
       limits = \<lparr>vbat_uv = 1.95, vbat_ov_target = None\<rparr>, pool = replicate 24 0\<rparr>
     None None = Inl ZeroDivisionError"
proof -
  have "replicate 24 (0::real) = 0 # replicate 23 0"
    by (simp add: eval_nat_numeral)
  then show ?thesis
    using search_ok_zero_first [where rest = "replicate 23 0" and target_prog = None
        and target_hyst = None]
    by (simp add: Optimizer_init_E24_decade_minus_324)
qed

text \<open>
  C10. \<open>ok_relationships\<close> accepts equal thresholds: a value at or above the floor, and
  at or below the ceiling when one is configured, is accepted as both thresholds. When the
  floor and the ceiling hold, the pair is rejected exactly when the hysteresis threshold is
  strictly below the programmed one.
\<close>

theorem ok_relationships_equal_thresholds:
  "(vbat_uv self \<le> v \<and>
      (vbat_ov_target self = None \<or> (\<exists>ov. vbat_ov_target self = Some ov \<and> v \<le> ov)) \<longrightarrow>
      ok_relationships self v v) \<and>
   (vbat_uv self \<le> v_prog \<and>
      (vbat_ov_target self = None \<or> (\<exists>ov. vbat_ov_target self = Some ov \<and> v_hyst \<le> ov)) \<longrightarrow>
      (\<not> ok_relationships self v_prog v_hyst) = (v_hyst < v_prog))"
  by (auto simp: ok_relationships_def split: option.splits)

theorem ok_relationships_equal_thresholds_witness:
  "(1.95::real) \<le> 3.5 \<and> (3.5::real) \<le> 4.2 \<and>
   ok_relationships \<lparr>vbat_uv = 1.95, vbat_ov_target = Some 4.2\<rparr> 3.5 3.5 \<and>
   ok_relationships \<lparr>vbat_uv = 1.95, vbat_ov_target = None\<rparr> 3.5 3.5 \<and>
   (3.4::real) < 3.5 \<and>
   \<not> ok_relationships \<lparr>vbat_uv = 1.95, vbat_ov_target = Some 4.2\<rparr> 3.5 3.4"
proof -
  let ?L = "\<lparr>vbat_uv = 1.95, vbat_ov_target = Some 4.2\<rparr>"
  let ?N = "\<lparr>vbat_uv = 1.95, vbat_ov_target = None\<rparr>"
  have floor: "vbat_uv ?L \<le> 3.5" "vbat_uv ?N \<le> 3.5"
    by simp_all
  have ceiling: "\<exists>ov. vbat_ov_target ?L = Some ov \<and> 3.5 \<le> ov"
    "\<exists>ov. vbat_ov_target ?L = Some ov \<and> 3.4 \<le> ov"
    by (rule exI [of _ "4.2"], simp)+
  have none: "vbat_ov_target ?N = None"
    by simp
  have less: "(3.4::real) < 3.5"
    by simp
  have "ok_relationships ?L 3.5 3.5"
    using ok_relationships_equal_thresholds [where self = ?L and v = "3.5"] floor(1) ceiling(1)
    by blast
  moreover have "ok_relationships ?N 3.5 3.5"
    using ok_relationships_equal_thresholds [where self = ?N and v = "3.5"] floor(2) none
    by blast
  moreover have "\<not> ok_relationships ?L 3.5 3.4"
    using ok_relationships_equal_thresholds [where self = ?L and v_prog = "3.5" and v_hyst = "3.4"]
      floor(1) ceiling(2) less
    by blast
  ultimately show ?thesis
    using less by simp
qed


end
